theory Spec2Isabelle
  imports Complex_Main
begin

section \<open>Python values\<close>

text \<open>
  A Python \<open>str\<close> is a sequence of Unicode code points. The rupee sign U+20B9, which the
  amount pattern and the fraud message use, does not fit an 8-bit character, so a
  string is a list of code points. \<open>str\<close> embeds an ASCII literal.
  Floats are modelled as reals: binary rounding and the non-finite values are outside the
  model.

  The extractor is modelled for plain texts: texts of ASCII characters and rupee signs.
  On other code points Python's \<open>lower\<close>, \<open>\d\<close>, \<open>int\<close> and \<open>float\<close> follow
  the Unicode tables (a Devanagari digit is a digit, the Kelvin sign lower-cases to k),
  which the model does not have; what is proved of the extractor for every text is
  stated for plain texts only.
\<close>

type_synonym pychar = nat
type_synonym pystr = "pychar list"

definition str :: "string \<Rightarrow> pystr" where
  "str s = map of_char s"

definition rupee_sign :: pychar where
  "rupee_sign = 8377"

text \<open>The exceptions that the request handler can meet and turn into a 500 response.\<close>

datatype py_error = TypeError | ValueError | ZeroDivisionError | OverflowError

text \<open>
  \<open>round(x, 2)\<close>: the nearest multiple of 1/100, a tie going to the even one.
\<close>

definition round_half_even :: "real \<Rightarrow> int" where
  "round_half_even x =
     (let f = \<lfloor>x\<rfloor>; d = x - of_int f
      in if d < 1 / 2 then f else if 1 / 2 < d then f + 1
         else if even f then f else f + 1)"

definition py_round2 :: "real \<Rightarrow> real" where
  "py_round2 x = of_int (round_half_even (x * 100)) / 100"

text \<open>SQLite compares TEXT values position by position (BINARY collation).\<close>

fun text_le :: "pystr \<Rightarrow> pystr \<Rightarrow> bool" where
  "text_le [] ys = True"
| "text_le (x # xs) [] = False"
| "text_le (x # xs) (y # ys) = (x < y \<or> (x = y \<and> text_le xs ys))"

section \<open>The store (kirana\_store.db)\<close>

text \<open>
  Tables are lists of rows in rowid order, which is the order a table scan returns them
  in. Both tables have an AUTOINCREMENT key, so the store also keeps the largest rowid
  each table ever used (SQLite's \<open>sqlite_sequence\<close>).
\<close>

record txn_row =
  t_id :: nat
  timestamp :: pystr
  t_item :: pystr
  t_amount :: real
  t_type :: pystr
  t_payment_method :: pystr
  customer_name :: pystr

record inv_row =
  i_id :: nat
  item_name :: pystr
  quantity :: int
  reorder_level :: int
  unit_price :: real
  last_updated :: pystr

record db =
  transactions :: "txn_row list"
  transactions_seq :: nat
  inventory :: "inv_row list"
  inventory_seq :: nat

text \<open>
  What the handler takes from outside: the clock (\<open>datetime.now().isoformat()\<close> and
  SQLite's \<open>date('now', '-30 days')\<close>) and the library's conversion of a float to text,
  which the f-string of the fraud message calls.
\<close>

record env =
  now :: pystr
  cutoff :: pystr
  show_float :: "real \<Rightarrow> pystr"

section \<open>Agent 1: cash flow forecast\<close>

record cf_result =
  shortage_predicted :: bool
  daily_avg_flow :: "real option"
  recommendation :: pystr

text \<open>The query of \<open>cash_flow_forecast\<close>: amount and type of the rows of the last 30 days.\<close>

definition last_30_days :: "env \<Rightarrow> db \<Rightarrow> (real \<times> pystr) list" where
  "last_30_days e d =
     map (\<lambda>t. (t_amount t, t_type t))
       (filter (\<lambda>t. text_le (cutoff e) (timestamp t)) (transactions d))"

definition cash_flow_forecast :: "env \<Rightarrow> db \<Rightarrow> cf_result" where
  "cash_flow_forecast e d =
     (let transactions = last_30_days e d
      in if transactions = [] then
           \<lparr>shortage_predicted = False, daily_avg_flow = None,
            recommendation = str ''Insufficient data''\<rparr>
         else
           let sales = sum_list (map fst (filter (\<lambda>t. snd t = str ''sale'') transactions));
               purchases = sum_list (map fst (filter (\<lambda>t. snd t = str ''purchase'') transactions));
               net_flow = sales - purchases;
               daily_avg = net_flow / 30;
               shortage = daily_avg < 0
           in \<lparr>shortage_predicted = shortage,
               daily_avg_flow = Some (py_round2 daily_avg),
               recommendation =
                 (if shortage
                  then str ''Cash shortage expected. Consider delaying purchases or securing short-term loan.''
                  else str ''No action needed'')\<rparr>)"

section \<open>Agent 2: inventory alert\<close>

record reorder_item =
  item :: pystr
  current :: int
  r_reorder_level :: int

record inv_result =
  stock_low :: bool
  items_to_reorder :: "reorder_item list"

definition inventory_alert :: "db \<Rightarrow> inv_result" where
  "inventory_alert d =
     (let low_stock_items = filter (\<lambda>r. quantity r \<le> reorder_level r) (inventory d)
      in \<lparr>stock_low = (length low_stock_items > 0),
          items_to_reorder =
            map (\<lambda>r. \<lparr>item = item_name r, current = quantity r,
                       r_reorder_level = reorder_level r\<rparr>) low_stock_items\<rparr>)"

section \<open>Agent 3: fraud detection\<close>

record fraud_result =
  fraud_suspected :: bool
  reason :: pystr

text \<open>\<open>np.mean\<close> and \<open>np.std\<close> (with its default \<open>ddof = 0\<close>) of a non-empty list.\<close>

definition np_mean :: "real list \<Rightarrow> real" where
  "np_mean xs = sum_list xs / real (length xs)"

definition np_std :: "real list \<Rightarrow> real" where
  "np_std xs = sqrt (np_mean (map (\<lambda>x. \<bar>x - np_mean xs\<bar> ^ 2) xs))"

definition sale_amounts :: "db \<Rightarrow> real list" where
  "sale_amounts d = map t_amount (filter (\<lambda>t. t_type t = str ''sale'') (transactions d))"

definition fraud_detection :: "env \<Rightarrow> db \<Rightarrow> real \<Rightarrow> fraud_result" where
  "fraud_detection e d transaction_amount =
     (let amounts = sale_amounts d
      in if length amounts < 10 then
           \<lparr>fraud_suspected = False, reason = str ''Insufficient data''\<rparr>
         else
           let mean_amount = np_mean amounts;
               std_amount = np_std amounts;
               threshold = mean_amount + 3 * std_amount;
               suspected = transaction_amount > threshold;
               msg = str ''Transaction amount ('' @ [rupee_sign] @ show_float e transaction_amount
                     @ str '') exceeds normal range ('' @ [rupee_sign]
                     @ show_float e (py_round2 threshold) @ str '')''
           in \<lparr>fraud_suspected = suspected,
               reason = (if suspected then msg else str ''Transaction within normal range'')\<rparr>)"

section \<open>Alerts\<close>

record alert =
  alert_type :: pystr
  message :: pystr
  severity :: pystr

text \<open>The block of \<open>process_input\<close> that builds the alert list from the three results.\<close>

definition generate_alerts :: "cf_result \<Rightarrow> inv_result \<Rightarrow> fraud_result \<Rightarrow> alert list" where
  "generate_alerts cf_result inv_result fraud_result =
     (if shortage_predicted cf_result
      then [\<lparr>alert_type = str ''cash_flow'', message = recommendation cf_result,
             severity = str ''high''\<rparr>]
      else [])
     @ (if stock_low inv_result
        then map (\<lambda>i. \<lparr>alert_type = str ''inventory'',
                        message = str ''Low stock: '' @ item i @ str '' - Reorder needed'',
                        severity = str ''medium''\<rparr>) (items_to_reorder inv_result)
        else [])
     @ (if fraud_suspected fraud_result
        then [\<lparr>alert_type = str ''fraud'', message = reason fraud_result,
               severity = str ''critical''\<rparr>]
        else [])"

section \<open>Text matching\<close>

text \<open>
  \<open>str.lower\<close>, as it is on plain texts: the ASCII capitals are mapped, every other
  code point is left as it is (the case mapping of non-ASCII letters is outside the
  model).
\<close>

definition lower_char :: "pychar \<Rightarrow> pychar" where
  "lower_char c = (if 65 \<le> c \<and> c \<le> 90 then c + 32 else c)"

definition lower :: "pystr \<Rightarrow> pystr" where
  "lower s = map lower_char s"

text \<open>\<open>s.startswith(l)\<close>, and \<open>sub in s\<close> for strings.\<close>

definition startswith :: "pystr \<Rightarrow> pystr \<Rightarrow> bool" where
  "startswith s l = (take (length l) s = l)"

fun contains :: "pystr \<Rightarrow> pystr \<Rightarrow> bool" where
  "contains [] sub = (sub = [])"
| "contains (x # xs) sub = (startswith (x # xs) sub \<or> contains xs sub)"

text \<open>
  The character classes of the two patterns: \<open>\d\<close>, as it is on plain texts, the
  ASCII digits (the other Unicode decimal digits are outside the model), and \<open>\s\<close>,
  the Unicode whitespace of a \<open>str\<close> pattern.
\<close>

datatype cls = Digit | Space

fun in_cls :: "cls \<Rightarrow> pychar \<Rightarrow> bool" where
  "in_cls Digit c = (48 \<le> c \<and> c \<le> 57)"
| "in_cls Space c =
     ((9 \<le> c \<and> c \<le> 13) \<or> (28 \<le> c \<and> c \<le> 32) \<or> c = 133 \<or> c = 160 \<or> c = 5760
      \<or> (8192 \<le> c \<and> c \<le> 8202) \<or> c = 8232 \<or> c = 8233 \<or> c = 8239 \<or> c = 8287
      \<or> c = 12288)"

text \<open>
  The part of Python's regular expressions that the two patterns use: a literal, one
  character of a class, \<open>*\<close> and \<open>+\<close> on a class, \<open>?\<close>, concatenation,
  alternation and a capturing group (a non-capturing group only brackets).
\<close>

datatype re =
    Lit pystr
  | Cls cls
  | Star cls
  | Plus cls
  | Opt re
  | Seq re re
  | Alt re re
  | Grp nat re

type_synonym groups = "nat \<Rightarrow> pystr option"
type_synonym mstate = "pystr \<times> groups"

text \<open>
  Python's matcher backtracks: a quantifier is greedy and gives characters back one at a
  time, an alternation tries its branches from left to right. \<open>matches r (s, g)\<close> lists
  every way in which \<open>r\<close> matches a prefix of \<open>s\<close>, in the order in which the matcher
  tries them, each as the rest of the text and the groups captured so far. The match
  that \<open>re\<close> reports is the first of the list.
\<close>

fun star_cls :: "cls \<Rightarrow> pystr \<Rightarrow> pystr list" where
  "star_cls c [] = [[]]"
| "star_cls c (x # xs) = (if in_cls c x then star_cls c xs @ [x # xs] else [x # xs])"

fun matches :: "re \<Rightarrow> mstate \<Rightarrow> mstate list" where
  "matches (Lit l) (s, g) = (if startswith s l then [(drop (length l) s, g)] else [])"
| "matches (Cls c) (s, g) =
     (case s of [] \<Rightarrow> [] | x # xs \<Rightarrow> if in_cls c x then [(xs, g)] else [])"
| "matches (Star c) (s, g) = map (\<lambda>r. (r, g)) (star_cls c s)"
| "matches (Plus c) (s, g) =
     (case s of [] \<Rightarrow> [] | x # xs \<Rightarrow> if in_cls c x then map (\<lambda>r. (r, g)) (star_cls c xs) else [])"
| "matches (Opt a) (s, g) = matches a (s, g) @ [(s, g)]"
| "matches (Seq a b) (s, g) = concat (map (matches b) (matches a (s, g)))"
| "matches (Alt a b) (s, g) = matches a (s, g) @ matches b (s, g)"
| "matches (Grp k a) (s, g) =
     map (\<lambda>(s', g'). (s', g'(k \<mapsto> take (length s - length s') s))) (matches a (s, g))"

text \<open>\<open>re.search\<close>: the first match at the leftmost position that has one, the end of
  the text included; the result is the groups of the match, or None.\<close>

fun re_search :: "re \<Rightarrow> pystr \<Rightarrow> groups option" where
  "re_search r [] = (case matches r ([], Map.empty) of [] \<Rightarrow> None | m # _ \<Rightarrow> Some (snd m))"
| "re_search r (x # xs) =
     (case matches r (x # xs, Map.empty) of [] \<Rightarrow> re_search r xs | m # _ \<Rightarrow> Some (snd m))"

text \<open>
  The amount pattern
  \<^verbatim>\<open>(?:rs\.?|rupees?|R)\s*(\d+(?:\.\d{2})?)|(\d+(?:\.\d{2})?)\s*(?:rs\.?|rupees?|R)\<close>
  (with the rupee sign for R) and the quantity pattern
  \<^verbatim>\<open>(\d+)\s*(?:kg|kg\.|kilos?|packets?|units?|pieces?)\<close>.
\<close>

definition currency :: re where
  "currency =
     Alt (Seq (Lit (str ''rs'')) (Opt (Lit (str ''.''))))
       (Alt (Seq (Lit (str ''rupee'')) (Opt (Lit (str ''s''))))
          (Lit [rupee_sign]))"

definition number :: re where
  "number = Seq (Plus Digit) (Opt (Seq (Lit (str ''.'')) (Seq (Cls Digit) (Cls Digit))))"

definition amount_pattern :: re where
  "amount_pattern =
     Alt (Seq currency (Seq (Star Space) (Grp 1 number)))
         (Seq (Grp 2 number) (Seq (Star Space) currency))"

definition unit_word :: re where
  "unit_word =
     Alt (Lit (str ''kg''))
       (Alt (Lit (str ''kg.''))
          (Alt (Seq (Lit (str ''kilo'')) (Opt (Lit (str ''s''))))
             (Alt (Seq (Lit (str ''packet'')) (Opt (Lit (str ''s''))))
                (Alt (Seq (Lit (str ''unit'')) (Opt (Lit (str ''s''))))
                   (Seq (Lit (str ''piece'')) (Opt (Lit (str ''s''))))))))"

definition quantity_pattern :: re where
  "quantity_pattern = Seq (Grp 1 (Plus Digit)) (Seq (Star Space) unit_word)"

text \<open>
  \<open>int\<close> and \<open>float\<close> on the strings the patterns can capture in a plain text: a
  run of digits, and a run of digits with an optional fraction. Python accepts more
  (signs, blanks, exponents, underscores); here every other string is a ValueError, and
  the patterns capture none of them. \<open>int\<close> refuses a numeral of more than 4300 digits
  with a ValueError; \<open>float\<close> has no such limit.
\<close>

definition digits_value :: "pystr \<Rightarrow> nat" where
  "digits_value ds = foldl (\<lambda>a c. 10 * a + (c - 48)) 0 ds"

definition py_int :: "pystr \<Rightarrow> py_error + nat" where
  "py_int s =
     (if s \<noteq> [] \<and> list_all (in_cls Digit) s \<and> length s \<le> 4300
      then Inr (digits_value s) else Inl ValueError)"

definition py_float :: "pystr \<Rightarrow> py_error + real" where
  "py_float s =
     (let ip = takeWhile (in_cls Digit) s; rest = dropWhile (in_cls Digit) s
      in if ip = [] then Inl ValueError
         else if rest = [] then Inr (real (digits_value ip))
         else if hd rest = 46 \<and> tl rest \<noteq> [] \<and> list_all (in_cls Digit) (tl rest)
         then Inr (real (digits_value ip) + real (digits_value (tl rest)) / 10 ^ length (tl rest))
         else Inl ValueError)"

section \<open>NLP parser\<close>

record parsed =
  p_item :: pystr
  amount :: real
  p_type :: pystr
  p_quantity :: nat
  payment_method :: pystr

text \<open>\<open>m.group(1) or m.group(2)\<close>: the first group unless it is None or empty.\<close>

definition group_or :: "groups \<Rightarrow> nat \<Rightarrow> nat \<Rightarrow> pystr option" where
  "group_or g i j = (case g i of None \<Rightarrow> g j | Some v \<Rightarrow> if v = [] then g j else Some v)"

definition purchase_words :: "pystr list" where
  "purchase_words = [str ''buy'', str ''purchase'', str ''bought'', str ''supplier'']"

definition items :: "pystr list" where
  "items = [str ''rice'', str ''wheat'', str ''sugar'', str ''oil'', str ''dal'', str ''tea'',
            str ''salt'', str ''milk'', str ''biscuit'']"

text \<open>The two extraction steps of \<open>parse_transaction_text\<close> that convert a captured
  group, with the conversion's exception as a value.\<close>

definition extract_amount :: "pystr \<Rightarrow> py_error + real" where
  "extract_amount text =
     (case re_search amount_pattern text of
        None \<Rightarrow> Inr 0
      | Some g \<Rightarrow> (case group_or g 1 2 of None \<Rightarrow> Inl TypeError | Some v \<Rightarrow> py_float v))"

definition extract_quantity :: "pystr \<Rightarrow> py_error + nat" where
  "extract_quantity text =
     (case re_search quantity_pattern text of
        None \<Rightarrow> Inr 1
      | Some g \<Rightarrow> (case g 1 of None \<Rightarrow> Inl TypeError | Some v \<Rightarrow> py_int v))"

definition parse_transaction_text :: "pystr \<Rightarrow> py_error + parsed" where
  "parse_transaction_text input =
     (let text = lower input
      in case extract_amount text of
           Inl err \<Rightarrow> Inl err
         | Inr amount_value \<Rightarrow>
             let transaction_type =
                   (if list_ex (contains text) purchase_words then str ''purchase'' else str ''sale'');
                 item_value = (case find (contains text) items of
                                 None \<Rightarrow> str ''general'' | Some i \<Rightarrow> i)
             in (case extract_quantity text of
                   Inl err \<Rightarrow> Inl err
                 | Inr quantity_value \<Rightarrow>
                     Inr \<lparr>p_item = item_value, amount = amount_value,
                          p_type = transaction_type, p_quantity = quantity_value,
                          payment_method = str ''cash''\<rparr>))"

section \<open>The request handler\<close>

text \<open>
  The three SQL statements of \<open>process_input\<close>. An AUTOINCREMENT key is one more than
  the largest rowid the table has or ever had. \<open>INSERT OR REPLACE\<close> deletes the row that
  holds the same \<open>item_name\<close> (the column is UNIQUE) and inserts the new row, which gets
  a new rowid and so moves to the end of the table; its quantity is the old row's
  quantity (0 without one) plus the purchased one, its reorder level the constant 10.
\<close>

definition next_rowid :: "nat \<Rightarrow> nat list \<Rightarrow> nat" where
  "next_rowid seq ids = Suc (fold max ids seq)"

definition insert_transaction :: "txn_row \<Rightarrow> db \<Rightarrow> db" where
  "insert_transaction row d =
     (let k = next_rowid (transactions_seq d) (map t_id (transactions d))
      in d\<lparr>transactions := transactions d @ [row\<lparr>t_id := k\<rparr>], transactions_seq := k\<rparr>)"

definition update_inventory_sale :: "pystr \<Rightarrow> int \<Rightarrow> db \<Rightarrow> db" where
  "update_inventory_sale name q d =
     d\<lparr>inventory :=
         map (\<lambda>r. if item_name r = name then r\<lparr>quantity := quantity r - q\<rparr> else r) (inventory d)\<rparr>"

definition insert_or_replace_inventory :: "pystr \<Rightarrow> int \<Rightarrow> real \<Rightarrow> pystr \<Rightarrow> db \<Rightarrow> db" where
  "insert_or_replace_inventory name q price ts d =
     (let old = (case find (\<lambda>r. item_name r = name) (inventory d) of
                   None \<Rightarrow> 0 | Some r \<Rightarrow> quantity r);
          k = next_rowid (inventory_seq d) (map i_id (inventory d))
      in d\<lparr>inventory :=
             filter (\<lambda>r. item_name r \<noteq> name) (inventory d)
             @ [\<lparr>i_id = k, item_name = name, quantity = old + q, reorder_level = 10,
                  unit_price = price, last_updated = ts\<rparr>],
           inventory_seq := k\<rparr>)"

text \<open>
  The block "Store in database". The arguments of the second statement are evaluated
  before it runs, so a purchase of quantity 0 raises ZeroDivisionError at
  \<open>amount / quantity\<close>; a quantity of 2^63 or more does not fit an SQLite INTEGER
  and raises OverflowError. The columns themselves are modelled without a width
  (SQLite turns an INTEGER into a REAL when a sum or difference leaves the 64-bit
  range; the model keeps the integer).
  Both exceptions leave the block before \<open>conn.commit()\<close>.
\<close>

definition store_in_database :: "env \<Rightarrow> parsed \<Rightarrow> db \<Rightarrow> py_error + db" where
  "store_in_database e parsed_data d =
     (let ts = now e;
          d1 = insert_transaction
                 \<lparr>t_id = 0, timestamp = ts, t_item = p_item parsed_data,
                  t_amount = amount parsed_data, t_type = p_type parsed_data,
                  t_payment_method = payment_method parsed_data,
                  customer_name = str ''Customer''\<rparr> d
      in if p_type parsed_data = str ''sale'' then
           if 2 ^ 63 \<le> p_quantity parsed_data then Inl OverflowError
           else Inr (update_inventory_sale (p_item parsed_data) (int (p_quantity parsed_data)) d1)
         else if p_quantity parsed_data = 0 then Inl ZeroDivisionError
         else if 2 ^ 63 \<le> p_quantity parsed_data then Inl OverflowError
         else Inr (insert_or_replace_inventory (p_item parsed_data)
                     (int (p_quantity parsed_data))
                     (amount parsed_data / real (p_quantity parsed_data)) ts d1))"

record agents =
  cash_flow :: cf_result
  inventory_result :: inv_result
  fraud :: fraud_result

record result =
  parsed_transaction :: parsed
  agents :: agents
  alerts :: "alert list"

text \<open>
  The handler answers with the payload and status 200, with the message
  "No input provided" and status 400, or with the text of an exception and status 500.
  The request is the \<open>text\<close> member of the JSON body when it has one. An exception
  raised before the commit leaves the handler with the connection dropped and its
  insert uncommitted, so the store is then as it was.

  With ten or more sale rows \<open>fraud_detection\<close> compares the amount with a numpy
  float, and the result is a numpy boolean, which \<open>jsonify\<close> refuses with a TypeError.
  The handler's \<open>except\<close> branch turns it into a 500 response; this happens after the
  commit, so the store keeps the new rows.
\<close>

datatype response = Success result | Bad_request pystr | Server_error py_error

definition process_input :: "env \<Rightarrow> db \<Rightarrow> pystr option \<Rightarrow> response \<times> db" where
  "process_input e d request_text =
     (let input_text = (case request_text of None \<Rightarrow> [] | Some t \<Rightarrow> t)
      in if input_text = [] then (Bad_request (str ''No input provided''), d)
         else case parse_transaction_text input_text of
                Inl err \<Rightarrow> (Server_error err, d)
              | Inr parsed_data \<Rightarrow>
                  (case store_in_database e parsed_data d of
                     Inl err \<Rightarrow> (Server_error err, d)
                   | Inr d' \<Rightarrow>
                       let cf_result = cash_flow_forecast e d';
                           inv_result = inventory_alert d';
                           fraud_result = fraud_detection e d' (amount parsed_data);
                           payload =
                             \<lparr>parsed_transaction = parsed_data,
                              agents = \<lparr>cash_flow = cf_result, inventory_result = inv_result,
                                        fraud = fraud_result\<rparr>,
                              alerts = generate_alerts cf_result inv_result fraud_result\<rparr>
                       in if 10 \<le> length (sale_amounts d')
                          then (Server_error TypeError, d')
                          else (Success payload, d')))"

section \<open>Reference definitions and example data\<close>

text \<open>The total of the amounts of one transaction type in a window, as the specification
  words it: a sum over all rows in which the other rows count for nothing.\<close>

definition type_total :: "pystr \<Rightarrow> (real \<times> pystr) list \<Rightarrow> real" where
  "type_total ty w = (\<Sum>(a, t) \<leftarrow> w. if t = ty then a else 0)"

subsection \<open>The amount of an utterance, in the specification's words\<close>

text \<open>
  A currency token is one of the words "rs" and "rupee", the first optionally followed by
  a period and the second by an "s", or the rupee sign.
\<close>

definition currency_tokens :: "pystr list" where
  "currency_tokens = [str ''rs.'', str ''rs'', str ''rupees'', str ''rupee'', [rupee_sign]]"

text \<open>
  A number is a run of digits, optionally followed by a period and two digits.
  \<open>number_at s\<close> is the longest number that \<open>s\<close> starts with: all the leading digits,
  and the period with the two digits after it when they are there.
\<close>

definition has_fraction :: "pystr \<Rightarrow> bool" where
  "has_fraction r =
     (case r of p # a # b # _ \<Rightarrow> p = 46 \<and> in_cls Digit a \<and> in_cls Digit b | _ \<Rightarrow> False)"

definition number_at :: "pystr \<Rightarrow> pystr option" where
  "number_at s =
     (let ds = takeWhile (in_cls Digit) s; r = dropWhile (in_cls Digit) s
      in if ds = [] then None
         else if has_fraction r then Some (ds @ take 3 r)
         else Some ds)"

fun first_some :: "('a \<Rightarrow> 'b option) \<Rightarrow> 'a list \<Rightarrow> 'b option" where
  "first_some f [] = None"
| "first_some f (x # xs) = (case f x of None \<Rightarrow> first_some f xs | Some y \<Rightarrow> Some y)"

text \<open>A currency token at the head of \<open>s\<close>, then optional whitespace, then a number.\<close>

definition number_after_token :: "pystr \<Rightarrow> pystr option" where
  "number_after_token s =
     first_some (\<lambda>tok. if startswith s tok
                        then number_at (dropWhile (in_cls Space) (drop (length tok) s))
                        else None) currency_tokens"

text \<open>A number at the head of \<open>s\<close>, then optional whitespace, then a currency token.\<close>

definition number_before_token :: "pystr \<Rightarrow> pystr option" where
  "number_before_token s =
     (case number_at s of
        None \<Rightarrow> None
      | Some n \<Rightarrow>
          if list_ex (startswith (dropWhile (in_cls Space) (drop (length n) s))) currency_tokens
          then Some n else None)"

definition marked_number_at :: "pystr \<Rightarrow> pystr option" where
  "marked_number_at s =
     (case number_after_token s of None \<Rightarrow> number_before_token s | Some n \<Rightarrow> Some n)"

text \<open>The currency-marked number that starts at the leftmost position of the text.\<close>

fun first_marked_number :: "pystr \<Rightarrow> pystr option" where
  "first_marked_number [] = None"
| "first_marked_number (x # xs) =
     (case marked_number_at (x # xs) of None \<Rightarrow> first_marked_number xs | Some n \<Rightarrow> Some n)"

text \<open>The value a number denotes: its integer part plus its fraction.\<close>

definition decimal_value :: "pystr \<Rightarrow> real" where
  "decimal_value n =
     (let ip = takeWhile (in_cls Digit) n; fr = drop (Suc (length ip)) n
      in real (digits_value ip) + real (digits_value fr) / 10 ^ length fr)"

text \<open>
  The texts for which the extractor is modelled as Python runs it: ASCII characters and
  rupee signs, at most 300 of them. Within that length \<open>int\<close> takes every numeral of the
  text (it refuses more than 4300 digits) and the float of every numeral is finite (it
  is infinite from 309 digits on).
\<close>

definition plain_char :: "pychar \<Rightarrow> bool" where
  "plain_char c = (c < 128 \<or> c = rupee_sign)"

definition plain_text :: "pystr \<Rightarrow> bool" where
  "plain_text t = (list_all plain_char t \<and> length t \<le> 300)"

text \<open>Auxiliary notions of the proofs: what is left of a text after a currency token at
  its head, and the first element of a list of matches.\<close>

definition currency_rests :: "pystr \<Rightarrow> pystr list" where
  "currency_rests s = map (\<lambda>tok. drop (length tok) s) (filter (startswith s) currency_tokens)"

fun firstm :: "'a list \<Rightarrow> 'a option" where
  "firstm [] = None"
| "firstm (m # _) = Some m"

subsection \<open>Example data\<close>

definition example_env :: env where
  "example_env =
     \<lparr>now = str ''2026-02-01T09:30:00'', cutoff = str ''2026-01-02'',
      show_float = (\<lambda>x. if x = 200 then str ''200.0''
                          else if x = 160 then str ''160.0'' else str ''?'')\<rparr>"

definition sale_row :: "nat \<Rightarrow> real \<Rightarrow> txn_row" where
  "sale_row k a =
     \<lparr>t_id = k, timestamp = str ''2026-01-15T10:00:00'', t_item = str ''rice'',
      t_amount = a, t_type = str ''sale'', t_payment_method = str ''cash'',
      customer_name = str ''Customer''\<rparr>"

definition purchase_row :: "nat \<Rightarrow> real \<Rightarrow> txn_row" where
  "purchase_row k a =
     \<lparr>t_id = k, timestamp = str ''2026-01-20T10:00:00'', t_item = str ''rice'',
      t_amount = a, t_type = str ''purchase'', t_payment_method = str ''cash'',
      customer_name = str ''Customer''\<rparr>"

definition stock_row :: "nat \<Rightarrow> string \<Rightarrow> int \<Rightarrow> int \<Rightarrow> inv_row" where
  "stock_row k name q lvl =
     \<lparr>i_id = k, item_name = str name, quantity = q, reorder_level = lvl,
      unit_price = 25, last_updated = str ''2026-01-10T08:00:00''\<rparr>"

definition ledger :: "txn_row list \<Rightarrow> inv_row list \<Rightarrow> db" where
  "ledger ts rs =
     \<lparr>transactions = ts, transactions_seq = length ts,
      inventory = rs, inventory_seq = length rs\<rparr>"

definition ten_sales :: "txn_row list" where
  "ten_sales =
     [sale_row 1 80, sale_row 2 120, sale_row 3 80, sale_row 4 120, sale_row 5 80,
      sale_row 6 120, sale_row 7 80, sale_row 8 120, sale_row 9 80, sale_row 10 120]"

section \<open>Rounding\<close>

lemma type_total_filter:
  "type_total ty w = sum_list (map fst (filter (\<lambda>t. snd t = ty) w))"
  by (induction w) (auto simp: type_total_def)

lemma round_half_even_close: "\<bar>of_int (round_half_even x) - x\<bar> \<le> 1 / 2"
  unfolding round_half_even_def Let_def by (auto; linarith)

lemma py_round2_close: "\<bar>py_round2 x - x\<bar> \<le> 1 / 200"
  using round_half_even_close [of "x * 100"] unfolding py_round2_def
  by (simp add: field_simps abs_le_iff)

lemma py_round2_of_int: "py_round2 (of_int k) = of_int k"
  by (simp add: py_round2_def round_half_even_def Let_def)

section \<open>Properties of the agents\<close>

lemma sale_amounts_ten_sales:
  "sale_amounts (ledger ten_sales []) = [80, 120, 80, 120, 80, 120, 80, 120, 80, 120]"
  by (simp add: sale_amounts_def ledger_def ten_sales_def sale_row_def)

text \<open>
  C4. With at least 10 sale amounts in the ledger, the anomaly detector takes their
  arithmetic mean and their population standard deviation (divisor n), and suspects
  fraud exactly when the current amount is strictly above mean + 3 * deviation. The
  reason then embeds the current amount and the threshold rounded to two decimal places
  (a value within 1/200 of the threshold); otherwise it is the fixed within-normal-range
  message.
\<close>

theorem fraud_detection_threshold:
  "10 \<le> length (sale_amounts d) \<Longrightarrow>
   (let h = sale_amounts d; n = real (length h);
        \<mu> = sum_list h / n;
        \<sigma> = sqrt ((\<Sum>x\<leftarrow>h. (x - \<mu>)\<^sup>2) / n);
        threshold = \<mu> + 3 * \<sigma>;
        r = fraud_detection e d a
    in fraud_suspected r = (threshold < a)
     \<and> reason r =
         (if threshold < a
          then str ''Transaction amount ('' @ [rupee_sign] @ show_float e a
               @ str '') exceeds normal range ('' @ [rupee_sign]
               @ show_float e (py_round2 threshold) @ str '')''
          else str ''Transaction within normal range'')
     \<and> \<bar>py_round2 threshold - threshold\<bar> \<le> 1 / 200)"
proof -
  assume len: "10 \<le> length (sale_amounts d)"
  define t where "t = np_mean (sale_amounts d) + 3 * np_std (sale_amounts d)"
  have t_eq: "t = sum_list (sale_amounts d) / real (length (sale_amounts d))
      + 3 * sqrt ((\<Sum>x\<leftarrow>sale_amounts d.
           (x - sum_list (sale_amounts d) / real (length (sale_amounts d)))\<^sup>2)
          / real (length (sale_amounts d)))"
    by (simp add: t_def np_mean_def np_std_def)
  have fs: "fraud_suspected (fraud_detection e d a) = (t < a)"
    using len by (simp add: fraud_detection_def Let_def t_def)
  have rs: "reason (fraud_detection e d a) =
         (if t < a
          then str ''Transaction amount ('' @ [rupee_sign] @ show_float e a
               @ str '') exceeds normal range ('' @ [rupee_sign]
               @ show_float e (py_round2 t) @ str '')''
          else str ''Transaction within normal range'')"
    using len by (simp add: fraud_detection_def Let_def t_def)
  show ?thesis
    unfolding Let_def t_eq [symmetric]
    using fs rs py_round2_close [of t] by blast
qed

text \<open>The specification's example: mean 100, deviation 20, current amount 200.\<close>

theorem fraud_detection_threshold_witness:
  "10 \<le> length (sale_amounts (ledger ten_sales []))
   \<and> fraud_suspected (fraud_detection example_env (ledger ten_sales []) 200)
   \<and> reason (fraud_detection example_env (ledger ten_sales []) 200) =
       str ''Transaction amount ('' @ [rupee_sign] @ str ''200.0''
       @ str '') exceeds normal range ('' @ [rupee_sign] @ str ''160.0'' @ str '')''"
proof -
  have len: "10 \<le> length (sale_amounts (ledger ten_sales []))"
    by (simp add: sale_amounts_ten_sales)
  have r160: "py_round2 160 = 160"
    using py_round2_of_int [of 160] by simp
  show ?thesis
    using len fraud_detection_threshold [OF len, of example_env 200]
    by (simp add: Let_def sale_amounts_ten_sales r160 example_env_def)
qed

text \<open>
  C5. With fewer than 10 sale amounts in the ledger, the anomaly detector answers
  fraud\_suspected = false with the reason "Insufficient data", whatever the current
  amount is.
\<close>

theorem fraud_detection_insufficient_data:
  "length (sale_amounts d) < 10 \<Longrightarrow>
   fraud_detection e d a = \<lparr>fraud_suspected = False, reason = str ''Insufficient data''\<rparr>"
  by (simp add: fraud_detection_def)

theorem fraud_detection_insufficient_data_witness:
  "length (sale_amounts (ledger [sale_row 1 80, sale_row 2 120, purchase_row 3 50] [])) < 10
   \<and> fraud_detection example_env (ledger [sale_row 1 80, sale_row 2 120, purchase_row 3 50] []) 1000000
       = \<lparr>fraud_suspected = False, reason = str ''Insufficient data''\<rparr>"
proof -
  have len: "length (sale_amounts (ledger [sale_row 1 80, sale_row 2 120, purchase_row 3 50] [])) < 10"
    by (simp add: sale_amounts_def ledger_def)
  show ?thesis
    using len fraud_detection_insufficient_data [OF len, of example_env 1000000] by simp
qed

text \<open>
  C6 (as the code has it). On a non-empty 30-day window with sale total S and purchase
  total P, the forecaster returns daily\_avg\_flow = (S - P) / 30 rounded to two decimal
  places (so within 1/200 of it), the divisor being the constant 30, and
  shortage\_predicted is true exactly when the unrounded (S - P) / 30 is negative.
  With S = 9000 and P = 12000 the result is -100 and a predicted shortage.
\<close>

theorem cash_flow_forecast_nonempty:
  "last_30_days e d \<noteq> [] \<Longrightarrow>
   (let S = type_total (str ''sale'') (last_30_days e d);
        P = type_total (str ''purchase'') (last_30_days e d);
        r = cash_flow_forecast e d
    in daily_avg_flow r = Some (py_round2 ((S - P) / 30))
     \<and> \<bar>py_round2 ((S - P) / 30) - (S - P) / 30\<bar> \<le> 1 / 200
     \<and> shortage_predicted r = ((S - P) / 30 < 0)
     \<and> (S = 9000 \<and> P = 12000 \<longrightarrow> daily_avg_flow r = Some (- 100) \<and> shortage_predicted r))"
proof -
  assume ne: "last_30_days e d \<noteq> []"
  define S where "S = type_total (str ''sale'') (last_30_days e d)"
  define P where "P = type_total (str ''purchase'') (last_30_days e d)"
  have avg: "daily_avg_flow (cash_flow_forecast e d) = Some (py_round2 ((S - P) / 30))"
    using ne by (simp add: cash_flow_forecast_def Let_def type_total_filter S_def P_def)
  have sh: "shortage_predicted (cash_flow_forecast e d) = ((S - P) / 30 < 0)"
    using ne by (simp add: cash_flow_forecast_def Let_def type_total_filter S_def P_def)
  have ex: "S = 9000 \<and> P = 12000 \<longrightarrow>
      daily_avg_flow (cash_flow_forecast e d) = Some (- 100)
      \<and> shortage_predicted (cash_flow_forecast e d)"
    using py_round2_of_int [of "- 100"] by (simp add: avg sh)
  show ?thesis
    unfolding Let_def S_def [symmetric] P_def [symmetric]
    using avg sh ex py_round2_close [of "(S - P) / 30"] by blast
qed

lemma last_30_days_two_rows:
  "last_30_days example_env (ledger [sale_row 1 9000, purchase_row 2 12000] []) =
     [(9000, str ''sale''), (12000, str ''purchase'')]"
  by (simp add: last_30_days_def example_env_def ledger_def sale_row_def purchase_row_def str_def)

theorem cash_flow_forecast_nonempty_witness:
  "last_30_days example_env (ledger [sale_row 1 9000, purchase_row 2 12000] []) \<noteq> []
   \<and> daily_avg_flow (cash_flow_forecast example_env (ledger [sale_row 1 9000, purchase_row 2 12000] []))
       = Some (- 100)
   \<and> shortage_predicted (cash_flow_forecast example_env (ledger [sale_row 1 9000, purchase_row 2 12000] []))"
proof -
  have ne: "last_30_days example_env (ledger [sale_row 1 9000, purchase_row 2 12000] []) \<noteq> []"
    unfolding last_30_days_two_rows by simp
  show ?thesis
    using ne cash_flow_forecast_nonempty [OF ne]
    unfolding last_30_days_two_rows
    by (auto simp: Let_def type_total_def str_def)
qed

text \<open>
  C6 as stated fails: a window holding one sale of 100 has the average 100 / 30, and the
  forecaster returns 3.33.
\<close>

lemma last_30_days_one_row:
  "last_30_days example_env (ledger [sale_row 1 100] []) = [(100, str ''sale'')]"
  by (simp add: last_30_days_def example_env_def ledger_def sale_row_def str_def)

theorem cash_flow_forecast_unrounded_counterexample:
  "last_30_days example_env (ledger [sale_row 1 100] []) = [(100, str ''sale'')]
   \<and> daily_avg_flow (cash_flow_forecast example_env (ledger [sale_row 1 100] []))
       = Some (333 / 100)
   \<and> daily_avg_flow (cash_flow_forecast example_env (ledger [sale_row 1 100] []))
       \<noteq> Some ((100 - 0) / 30)"
proof -
  have "daily_avg_flow (cash_flow_forecast example_env (ledger [sale_row 1 100] []))
       = Some (333 / 100)"
    unfolding cash_flow_forecast_def last_30_days_one_row
    by (simp add: Let_def py_round2_def round_half_even_def str_def)
  then show ?thesis
    unfolding last_30_days_one_row by simp
qed

text \<open>
  C7. On an empty 30-day window the forecaster returns shortage\_predicted = false and the
  recommendation "Insufficient data", and the result has no daily\_avg\_flow.
\<close>

theorem cash_flow_forecast_empty:
  "last_30_days e d = [] \<Longrightarrow>
   cash_flow_forecast e d =
     \<lparr>shortage_predicted = False, daily_avg_flow = None,
      recommendation = str ''Insufficient data''\<rparr>"
  by (simp add: cash_flow_forecast_def)

theorem cash_flow_forecast_empty_witness:
  "last_30_days example_env (ledger [] []) = []
   \<and> cash_flow_forecast example_env (ledger [] []) =
     \<lparr>shortage_predicted = False, daily_avg_flow = None,
      recommendation = str ''Insufficient data''\<rparr>"
proof -
  have emp: "last_30_days example_env (ledger [] []) = []"
    by (simp add: last_30_days_def ledger_def)
  show ?thesis
    using emp cash_flow_forecast_empty [OF emp] by simp
qed

text \<open>
  C8. For any forecaster and detector results and the monitor's result on any inventory,
  the alert list is, in this order and with nothing else: one cash\_flow alert of severity
  high carrying the forecaster's recommendation if and only if a shortage is predicted;
  one inventory alert of severity medium naming the item for each inventory row whose
  quantity is at most its reorder level, in table order; one fraud alert of severity
  critical carrying the detector's reason if and only if fraud is suspected.
\<close>

theorem generate_alerts_order:
  "generate_alerts cf (inventory_alert d) fr =
     (if shortage_predicted cf
      then [\<lparr>alert_type = str ''cash_flow'', message = recommendation cf,
             severity = str ''high''\<rparr>]
      else [])
     @ map (\<lambda>i. \<lparr>alert_type = str ''inventory'',
                  message = str ''Low stock: '' @ item i @ str '' - Reorder needed'',
                  severity = str ''medium''\<rparr>)
         (items_to_reorder (inventory_alert d))
     @ (if fraud_suspected fr
        then [\<lparr>alert_type = str ''fraud'', message = reason fr,
               severity = str ''critical''\<rparr>]
        else [])
   \<and> map item (items_to_reorder (inventory_alert d)) =
       map item_name (filter (\<lambda>r. quantity r \<le> reorder_level r) (inventory d))"
  by (simp add: generate_alerts_def inventory_alert_def Let_def comp_def)

theorem generate_alerts_order_witness:
  "generate_alerts
     \<lparr>shortage_predicted = True, daily_avg_flow = Some (- 100),
      recommendation = str ''Cash shortage expected.''\<rparr>
     (inventory_alert (ledger [] [stock_row 1 ''rice'' 5 10, stock_row 2 ''sugar'' 15 10,
                                  stock_row 3 ''dal'' 10 10]))
     \<lparr>fraud_suspected = True, reason = str ''Too much''\<rparr>
   = [\<lparr>alert_type = str ''cash_flow'', message = str ''Cash shortage expected.'',
        severity = str ''high''\<rparr>,
      \<lparr>alert_type = str ''inventory'', message = str ''Low stock: rice - Reorder needed'',
        severity = str ''medium''\<rparr>,
      \<lparr>alert_type = str ''inventory'', message = str ''Low stock: dal - Reorder needed'',
        severity = str ''medium''\<rparr>,
      \<lparr>alert_type = str ''fraud'', message = str ''Too much'',
        severity = str ''critical''\<rparr>]"
  using generate_alerts_order
    [of "\<lparr>shortage_predicted = True, daily_avg_flow = Some (- 100),
          recommendation = str ''Cash shortage expected.''\<rparr>"
        "ledger [] [stock_row 1 ''rice'' 5 10, stock_row 2 ''sugar'' 15 10,
                    stock_row 3 ''dal'' 10 10]"
        "\<lparr>fraud_suspected = True, reason = str ''Too much''\<rparr>"]
  by (simp add: inventory_alert_def ledger_def stock_row_def str_def)

section \<open>The extractor on concrete utterances\<close>

lemmas pattern_defs =
  amount_pattern_def quantity_pattern_def currency_def number_def unit_word_def
  str_def startswith_def rupee_sign_def

lemmas parse_defs =
  parse_transaction_text_def extract_amount_def extract_quantity_def lower_def
  lower_char_def group_or_def py_float_def py_int_def digits_value_def
  purchase_words_def items_def

lemma parse_sold_rice:
  "parse_transaction_text (str ''sold 5 kg rice for rs 250'') =
     Inr \<lparr>p_item = str ''rice'', amount = 250, p_type = str ''sale'', p_quantity = 5,
          payment_method = str ''cash''\<rparr>"
  by (simp add: parse_defs pattern_defs)

lemma parse_bought_sugar:
  "parse_transaction_text (str ''bought 10 packets sugar rs500 from supplier'') =
     Inr \<lparr>p_item = str ''sugar'', amount = 500, p_type = str ''purchase'', p_quantity = 10,
          payment_method = str ''cash''\<rparr>"
  by (simp add: parse_defs pattern_defs)

lemma parse_bought_rice:
  "parse_transaction_text (str ''bought 3 kg rice rs 90'') =
     Inr \<lparr>p_item = str ''rice'', amount = 90, p_type = str ''purchase'', p_quantity = 3,
          payment_method = str ''cash''\<rparr>"
  by (simp add: parse_defs pattern_defs)

lemma parse_bought_zero:
  "parse_transaction_text (str ''bought 0 kg rice rs 100'') =
     Inr \<lparr>p_item = str ''rice'', amount = 100, p_type = str ''purchase'', p_quantity = 0,
          payment_method = str ''cash''\<rparr>"
  by (simp add: parse_defs pattern_defs)

text \<open>
  C1. The claim is that every extracted transaction has amount at least 0 and quantity
  at least 1. The quantity pattern accepts the numeral 0: on "sold 0 kg rice for rs 50"
  the extractor returns quantity 0.
\<close>

theorem parse_quantity_zero:
  "parse_transaction_text (str ''sold 0 kg rice for rs 50'') =
     Inr \<lparr>p_item = str ''rice'', amount = 50, p_type = str ''sale'', p_quantity = 0,
          payment_method = str ''cash''\<rparr>"
  by (simp add: parse_defs pattern_defs)

section \<open>The amount pattern\<close>

lemma star_cls_cont:
  assumes "\<And>x xs. in_cls c x \<Longrightarrow> K (x # xs, g) = []"
  shows "concat (map K (map (\<lambda>r. (r, g)) (star_cls c s))) = K (dropWhile (in_cls c) s, g)"
  using assms by (induction s) auto

lemma star_cls_hd: "\<exists>rs. star_cls c s = dropWhile (in_cls c) s # rs"
  by (induction s) auto

lemma has_fraction_length: "has_fraction r \<Longrightarrow> 3 \<le> length r \<and> hd r = 46"
  by (auto simp: has_fraction_def split: list.splits)

lemma matches_frac:
  "matches (Seq (Lit (str ''.'')) (Seq (Cls Digit) (Cls Digit))) (r, g) =
     (if has_fraction r then [(drop 3 r, g)] else [])"
  by (auto simp: has_fraction_def str_def startswith_def split: list.splits)

lemma startswith_Cons: "startswith s (x # l) = (case s of [] \<Rightarrow> False | y # t \<Rightarrow> y = x \<and> startswith t l)"
  by (auto simp: startswith_def split: list.splits)

lemma startswith_Nil [simp]: "startswith s [] = True"
  by (simp add: startswith_def)

lemma matches_currency:
  "matches currency (s, g) = map (\<lambda>r. (r, g)) (currency_rests s)"
  unfolding currency_def currency_rests_def currency_tokens_def
  by (auto simp: str_def startswith_Cons split: list.splits)


lemma firstm_append: "firstm (a @ b) = (case firstm a of None \<Rightarrow> firstm b | Some m \<Rightarrow> Some m)"
  by (cases a) auto

lemma firstm_concat_map: "firstm (concat (map f xs)) = first_some (\<lambda>x. firstm (f x)) xs"
  by (induction xs) (auto simp: firstm_append split: option.splits)

lemma space_not_digit: "in_cls Space x \<Longrightarrow> \<not> in_cls Digit x"
  by auto

lemma digit_not_space: "in_cls Digit x \<Longrightarrow> \<not> in_cls Space x"
  by auto

lemma currency_rests_Cons:
  "x \<noteq> 114 \<Longrightarrow> x \<noteq> 8377 \<Longrightarrow> currency_rests (x # xs) = []"
  by (simp add: currency_rests_def currency_tokens_def str_def startswith_Cons rupee_sign_def)

lemma currency_rests_space: "in_cls Space x \<Longrightarrow> currency_rests (x # xs) = []"
  by (rule currency_rests_Cons) auto

lemma currency_rests_digit: "in_cls Digit x \<Longrightarrow> currency_rests (x # xs) = []"
  by (rule currency_rests_Cons) auto

lemma dropWhile_digit_start: "in_cls Digit x \<Longrightarrow> dropWhile (in_cls Space) (x # xs) = x # xs"
  using digit_not_space by simp

lemma matches_spaces_currency:
  "matches (Seq (Star Space) currency) (r, g) =
     map (\<lambda>r'. (r', g)) (currency_rests (dropWhile (in_cls Space) r))"
proof -
  have "matches (Seq (Star Space) currency) (r, g) =
        concat (map (matches currency) (map (\<lambda>r'. (r', g)) (star_cls Space r)))"
    by simp
  also have "\<dots> = matches currency (dropWhile (in_cls Space) r, g)"
    by (rule star_cls_cont) (simp only: matches_currency currency_rests_space list.map)
  finally show ?thesis by (simp only: matches_currency)
qed

lemma plus_cont:
  assumes "\<And>x xs. in_cls c x \<Longrightarrow> K (x # xs, g) = []"
  shows "concat (map K (matches (Plus c) (s, g))) =
     (case s of [] \<Rightarrow> [] | x # xs \<Rightarrow> if in_cls c x then K (dropWhile (in_cls c) s, g) else [])"
proof (cases s)
  case Nil
  then show ?thesis by simp
next
  case (Cons x xs)
  show ?thesis
  proof (cases "in_cls c x")
    case True
    have "concat (map K (matches (Plus c) (s, g))) =
          concat (map K (map (\<lambda>r. (r, g)) (star_cls c xs)))"
      using Cons True by simp
    also have "\<dots> = K (dropWhile (in_cls c) xs, g)"
      by (rule star_cls_cont) (rule assms)
    finally show ?thesis using Cons True by simp
  next
    case False
    then show ?thesis using Cons by simp
  qed
qed

lemma number_at_None: "number_at s = None \<longleftrightarrow> (case s of [] \<Rightarrow> True | x # _ \<Rightarrow> \<not> in_cls Digit x)"
  by (cases s) (auto simp: number_at_def Let_def)

lemma number_at_Some:
  assumes "number_at s = Some n"
  shows "n \<noteq> [] \<and> s = n @ drop (length n) s
     \<and> drop (length n) s =
         (if has_fraction (dropWhile (in_cls Digit) s) then drop 3 (dropWhile (in_cls Digit) s)
          else dropWhile (in_cls Digit) s)"
proof -
  define ds where "ds = takeWhile (in_cls Digit) s"
  define r where "r = dropWhile (in_cls Digit) s"
  have eq: "s = ds @ r" by (simp add: ds_def r_def)
  have ne: "ds \<noteq> []" using assms by (auto simp: number_at_def Let_def ds_def split: if_splits)
  show ?thesis
  proof (cases "has_fraction r")
    case True
    then have n: "n = ds @ take 3 r"
      using assms ne by (auto simp: number_at_def Let_def ds_def r_def split: if_splits)
    have "s = (ds @ take 3 r) @ drop 3 r" using eq by simp
    then have split: "s = n @ drop 3 r" unfolding n .
    then have dr: "drop (length n) s = drop 3 r" by (metis append_eq_conv_conj)
    have "n \<noteq> []" using n ne by simp
    moreover have "s = n @ drop (length n) s" using split dr by simp
    moreover have "drop (length n) s = (if has_fraction r then drop 3 r else r)"
      using True dr by simp
    ultimately show ?thesis unfolding r_def by blast
  next
    case False
    then have n: "n = ds"
      using assms ne by (auto simp: number_at_def Let_def ds_def r_def split: if_splits)
    have dr: "drop (length n) s = r" unfolding n using eq by simp
    have "n \<noteq> []" using n ne by simp
    moreover have "s = n @ drop (length n) s" unfolding dr unfolding n by (rule eq)
    moreover have "drop (length n) s = (if has_fraction r then drop 3 r else r)"
      using False dr by simp
    ultimately show ?thesis unfolding r_def by blast
  qed
qed

lemma concat_map_concat_map:
  "concat (map f (concat (map k ps))) = concat (map (\<lambda>p. concat (map f (k p))) ps)"
  by (induction ps) auto

lemma matches_opt_frac:
  "matches (Opt (Seq (Lit (str ''.'')) (Seq (Cls Digit) (Cls Digit)))) (r, g) =
     (if has_fraction r then [(drop 3 r, g)] else []) @ [(r, g)]"
  by (simp only: matches.simps(5) matches_frac)

lemma has_fraction_digit: "in_cls Digit x \<Longrightarrow> \<not> has_fraction (x # xs)"
  by (auto simp: has_fraction_def split: list.splits)

lemma has_fraction_rests:
  "has_fraction r \<Longrightarrow> currency_rests (dropWhile (in_cls Space) r) = []"
  by (cases r) (auto simp: has_fraction_def currency_rests_Cons split: list.splits)

lemma matches_number_then_currency:
  "matches (Seq (Grp 2 number) (Seq (Star Space) currency)) (s, g) =
     (case number_at s of
        None \<Rightarrow> []
      | Some n \<Rightarrow> map (\<lambda>r. (r, g(2 \<mapsto> n)))
                    (currency_rests (dropWhile (in_cls Space) (drop (length n) s))))"
proof -
  define frac where "frac = Seq (Lit (str ''.'')) (Seq (Cls Digit) (Cls Digit))"
  define C where "C = Seq (Star Space) currency"
  define G :: "mstate \<Rightarrow> mstate" where
    "G = (\<lambda>(s', g'). (s', g'(2 \<mapsto> take (length s - length s') s)))"
  define K where "K st = concat (map (matches C) (map G (matches (Opt frac) st)))" for st
  have C_eq: "matches C (r, g') = map (\<lambda>r'. (r', g')) (currency_rests (dropWhile (in_cls Space) r))"
    for r g' unfolding C_def by (rule matches_spaces_currency)
  have K_eq: "K (r, g') =
      (if has_fraction r
       then map (\<lambda>r'. (r', g'(2 \<mapsto> take (length s - length (drop 3 r)) s)))
              (currency_rests (dropWhile (in_cls Space) (drop 3 r)))
       else map (\<lambda>r'. (r', g'(2 \<mapsto> take (length s - length r) s)))
              (currency_rests (dropWhile (in_cls Space) r)))" for r g'
    unfolding K_def frac_def matches_opt_frac
    by (simp add: G_def C_eq has_fraction_rests)
  have K_digit: "K (x # xs, g) = []" if "in_cls Digit x" for x xs
    unfolding K_eq using that
    by (simp add: has_fraction_digit dropWhile_digit_start currency_rests_digit)
  have "matches (Seq (Grp 2 number) C) (s, g) = concat (map K (matches (Plus Digit) (s, g)))"
    unfolding K_def number_def frac_def [symmetric]
    by (simp add: G_def concat_map_concat_map del: matches.simps(4))
  also have "\<dots> = (case s of [] \<Rightarrow> []
      | x # xs \<Rightarrow> if in_cls Digit x then K (dropWhile (in_cls Digit) s, g) else [])"
    by (rule plus_cont) (rule K_digit)
  finally have main: "matches (Seq (Grp 2 number) C) (s, g) =
      (case s of [] \<Rightarrow> []
       | x # xs \<Rightarrow> if in_cls Digit x then K (dropWhile (in_cls Digit) s, g) else [])" .
  show ?thesis
  proof (cases "number_at s")
    case None
    have "matches (Seq (Grp 2 number) C) (s, g) = []"
      unfolding main using None by (auto simp: number_at_None split: list.splits)
    then show ?thesis
      unfolding C_def None by (simp only: option.case)
  next
    case (Some n)
    from number_at_Some [OF Some]
    have n: "n \<noteq> []" "s = n @ drop (length n) s"
      "drop (length n) s =
         (if has_fraction (dropWhile (in_cls Digit) s) then drop 3 (dropWhile (in_cls Digit) s)
          else dropWhile (in_cls Digit) s)" by blast+
    have tk: "take (length s - length (drop (length n) s)) s = n"
      using n(2) by (metis append_eq_conv_conj diff_diff_cancel length_drop nat_le_linear take_all_iff)
    obtain x xs where s: "s = x # xs" "in_cls Digit x"
      using Some by (cases s) (auto simp: number_at_def Let_def split: if_splits)
    have Kn: "K (dropWhile (in_cls Digit) s, g) =
        map (\<lambda>r'. (r', g(2 \<mapsto> n))) (currency_rests (dropWhile (in_cls Space) (drop (length n) s)))"
      unfolding K_eq using n(3) tk by (auto split: if_splits)
    have "matches (Seq (Grp 2 number) C) (s, g) = K (dropWhile (in_cls Digit) s, g)"
      unfolding main using s by simp
    then show ?thesis
      unfolding C_def Some Kn by (simp only: option.case)
  qed
qed


lemma first_some_map_filter:
  "first_some F (map h (filter P xs)) = first_some (\<lambda>x. if P x then F (h x) else None) xs"
  by (induction xs) (auto split: option.splits)

lemma map_option_first_some:
  "map_option h (first_some f xs) = first_some (\<lambda>x. map_option h (f x)) xs"
  by (induction xs) (auto split: option.splits)

lemma first_some_cong: "(\<And>x. f x = f' x) \<Longrightarrow> first_some f xs = first_some f' xs"
  by (induction xs) (auto split: option.splits)

lemma firstm_matches_number:
  "firstm (matches (Grp k number) (r, g)) =
     map_option (\<lambda>n. (drop (length n) r, g(k \<mapsto> n))) (number_at r)"
proof (cases "number_at r")
  case None
  then have "matches (Plus Digit) (r, g) = []"
    by (auto simp: number_at_None split: list.splits)
  then have "matches number (r, g) = []"
    unfolding number_def by (simp del: matches.simps(4))
  then show ?thesis using None by simp
next
  case (Some n)
  define frac where "frac = Seq (Lit (str ''.'')) (Seq (Cls Digit) (Cls Digit))"
  define r0 where "r0 = dropWhile (in_cls Digit) r"
  from number_at_Some [OF Some]
  have n: "n \<noteq> []" "r = n @ drop (length n) r"
    "drop (length n) r = (if has_fraction r0 then drop 3 r0 else r0)"
    unfolding r0_def by blast+
  have tk: "take (length r - length (drop (length n) r)) r = n"
    using n(2) by (metis append_eq_conv_conj diff_diff_cancel length_drop nat_le_linear take_all_iff)
  obtain x xs where r: "r = x # xs" "in_cls Digit x"
    using Some by (cases r) (auto simp: number_at_def Let_def split: if_splits)
  obtain rs where "star_cls Digit xs = dropWhile (in_cls Digit) xs # rs"
    using star_cls_hd by blast
  then have "matches (Plus Digit) (r, g) = (r0, g) # map (\<lambda>r. (r, g)) rs"
    using r by (simp add: r0_def)
  then have "matches number (r, g) =
      matches (Opt frac) (r0, g) @ concat (map (matches (Opt frac)) (map (\<lambda>r. (r, g)) rs))"
    unfolding number_def frac_def by (simp del: matches.simps(4, 5))
  then obtain ms where
    "matches number (r, g) = (drop (length n) r, g) # ms"
    unfolding frac_def matches_opt_frac n(3) by (cases "has_fraction r0") auto
  then have "firstm (matches (Grp k number) (r, g)) =
      Some (drop (length n) r, g(k \<mapsto> take (length r - length (drop (length n) r)) r))"
    by simp
  then show ?thesis unfolding tk Some by simp
qed

lemma matches_number_space:
  assumes "in_cls Space x"
  shows "matches (Grp k number) (x # xs, g) = []"
proof -
  have "\<not> in_cls Digit x" using assms by (rule space_not_digit)
  then have "matches (Plus Digit) (x # xs, g) = []"
    by (simp del: in_cls.simps)
  then show ?thesis
    unfolding number_def by (simp del: matches.simps(4) in_cls.simps)
qed

lemma matches_spaces_number:
  "matches (Seq (Star Space) (Grp k number)) (r, g) =
     matches (Grp k number) (dropWhile (in_cls Space) r, g)"
proof -
  have "matches (Seq (Star Space) (Grp k number)) (r, g) =
        concat (map (matches (Grp k number)) (map (\<lambda>r'. (r', g)) (star_cls Space r)))"
    by (simp del: matches.simps(8))
  also have "\<dots> = matches (Grp k number) (dropWhile (in_cls Space) r, g)"
    by (rule star_cls_cont) (rule matches_number_space)
  finally show ?thesis .
qed

lemma group_or_1: "n \<noteq> [] \<Longrightarrow> group_or (g(Suc 0 \<mapsto> n)) (Suc 0) 2 = Some n"
  by (simp add: group_or_def)

lemma group_or_2: "group_or (Map.empty(2 \<mapsto> n)) (Suc 0) 2 = Some n"
  by (simp add: group_or_def)

lemma firstm_currency_then_number:
  "map_option (\<lambda>m. group_or (snd m) 1 2)
     (firstm (matches (Seq currency (Seq (Star Space) (Grp 1 number))) (s, g))) =
   map_option Some (number_after_token s)"
proof -
  define K where "K = matches (Seq (Star Space) (Grp 1 number))"
  have K_first: "map_option (\<lambda>m. group_or (snd m) 1 2) (firstm (K (r, g))) =
      map_option Some (number_at (dropWhile (in_cls Space) r))" for r
  proof (cases "number_at (dropWhile (in_cls Space) r)")
    case None
    then show ?thesis unfolding K_def matches_spaces_number firstm_matches_number by simp
  next
    case (Some n)
    then have "n \<noteq> []" using number_at_Some by blast
    then show ?thesis
      unfolding K_def matches_spaces_number firstm_matches_number Some
      by (simp add: group_or_1)
  qed
  have "matches (Seq currency (Seq (Star Space) (Grp 1 number))) (s, g) =
        concat (map (\<lambda>r. K (r, g)) (currency_rests s))"
    unfolding K_def by (simp only: matches.simps(6) matches_currency map_map comp_def)
  then have "map_option (\<lambda>m. group_or (snd m) 1 2)
     (firstm (matches (Seq currency (Seq (Star Space) (Grp 1 number))) (s, g))) =
     first_some (\<lambda>r. map_option Some (number_at (dropWhile (in_cls Space) r))) (currency_rests s)"
    by (simp only: firstm_concat_map map_option_first_some K_first)
  also have "\<dots> = map_option Some (number_after_token s)"
    unfolding number_after_token_def currency_rests_def first_some_map_filter map_option_first_some
    by (rule first_some_cong) simp
  finally show ?thesis .
qed

lemma list_ex_currency: "list_ex (startswith x) currency_tokens = (currency_rests x \<noteq> [])"
  by (simp add: currency_rests_def list_ex_iff filter_empty_conv)

lemma firstm_number_then_currency:
  "map_option (\<lambda>m. group_or (snd m) 1 2)
     (firstm (matches (Seq (Grp 2 number) (Seq (Star Space) currency)) (s, Map.empty))) =
   map_option Some (number_before_token s)"
proof (cases "number_at s")
  case None
  then show ?thesis
    unfolding matches_number_then_currency number_before_token_def by simp
next
  case (Some n)
  show ?thesis
    unfolding matches_number_then_currency number_before_token_def Some list_ex_currency
    by (cases "currency_rests (dropWhile (in_cls Space) (drop (length n) s))")
       (simp_all add: group_or_2)
qed

lemma firstm_amount_pattern:
  "map_option (\<lambda>m. group_or (snd m) 1 2) (firstm (matches amount_pattern (s, Map.empty))) =
   map_option Some (marked_number_at s)"
proof -
  define A where "A = matches (Seq currency (Seq (Star Space) (Grp 1 number))) (s, Map.empty)"
  define B where "B = matches (Seq (Grp 2 number) (Seq (Star Space) currency)) (s, Map.empty)"
  have A: "map_option (\<lambda>m. group_or (snd m) 1 2) (firstm A) = map_option Some (number_after_token s)"
    unfolding A_def by (rule firstm_currency_then_number)
  have B: "map_option (\<lambda>m. group_or (snd m) 1 2) (firstm B) = map_option Some (number_before_token s)"
    unfolding B_def by (rule firstm_number_then_currency)
  have "matches amount_pattern (s, Map.empty) = A @ B"
    unfolding amount_pattern_def A_def B_def by (simp only: matches.simps(7))
  then show ?thesis
    using A B unfolding marked_number_at_def
    by (cases "firstm A"; cases "number_after_token s") (auto simp: firstm_append)
qed

lemma case_list_firstm:
  "(case xs of [] \<Rightarrow> a | m # _ \<Rightarrow> f m) = (case firstm xs of None \<Rightarrow> a | Some m \<Rightarrow> f m)"
  by (cases xs) auto

lemma marked_number_at_Nil: "marked_number_at [] = None"
  by (simp add: marked_number_at_def number_after_token_def number_before_token_def
      number_at_def currency_tokens_def startswith_def str_def)

text \<open>
  \<open>first_marked_number\<close> is the currency-marked number at the leftmost position that
  has one.
\<close>

lemma first_marked_number_leftmost:
  "first_marked_number s = Some n \<longleftrightarrow>
     (\<exists>i < length s. marked_number_at (drop i s) = Some n
        \<and> (\<forall>j < i. marked_number_at (drop j s) = None))"
proof (induction s)
  case Nil
  then show ?case by simp
next
  case (Cons x xs)
  show ?case
  proof (cases "marked_number_at (x # xs)")
    case None
    have "(\<exists>i < length (x # xs). marked_number_at (drop i (x # xs)) = Some n
        \<and> (\<forall>j < i. marked_number_at (drop j (x # xs)) = None))
      \<longleftrightarrow> (\<exists>i < length xs. marked_number_at (drop i xs) = Some n
        \<and> (\<forall>j < i. marked_number_at (drop j xs) = None))" (is "?L \<longleftrightarrow> ?R")
    proof
      assume ?L
      then obtain i where i: "i < length (x # xs)" "marked_number_at (drop i (x # xs)) = Some n"
        "\<forall>j < i. marked_number_at (drop j (x # xs)) = None" by blast
      then obtain k where k: "i = Suc k" using None by (cases i) auto
      have "\<forall>j < k. marked_number_at (drop j xs) = None"
      proof (intro allI impI)
        fix j assume "j < k"
        then have "Suc j < i" using k by simp
        then have "marked_number_at (drop (Suc j) (x # xs)) = None" using i(3) by blast
        then show "marked_number_at (drop j xs) = None" by simp
      qed
      then show ?R using i k by auto
    next
      assume ?R
      then obtain i where i: "i < length xs" "marked_number_at (drop i xs) = Some n"
        "\<forall>j < i. marked_number_at (drop j xs) = None" by blast
      have "\<forall>j < Suc i. marked_number_at (drop j (x # xs)) = None"
      proof (intro allI impI)
        fix j assume "j < Suc i"
        then show "marked_number_at (drop j (x # xs)) = None"
          using None i(3) by (cases j) auto
      qed
      then show ?L using i by (intro exI [of _ "Suc i"]) simp
    qed
    then show ?thesis using None Cons.IH by simp
  next
    case (Some m)
    have "(\<exists>i < length (x # xs). marked_number_at (drop i (x # xs)) = Some n
        \<and> (\<forall>j < i. marked_number_at (drop j (x # xs)) = None)) \<longleftrightarrow> m = n"
    proof
      assume "\<exists>i < length (x # xs). marked_number_at (drop i (x # xs)) = Some n
        \<and> (\<forall>j < i. marked_number_at (drop j (x # xs)) = None)"
      then obtain i where i: "marked_number_at (drop i (x # xs)) = Some n"
        "\<forall>j < i. marked_number_at (drop j (x # xs)) = None" by blast
      have "i = 0"
      proof (rule ccontr)
        assume "i \<noteq> 0"
        then have "marked_number_at (drop 0 (x # xs)) = None" using i(2) by blast
        then show False using Some by simp
      qed
      then show "m = n" using i(1) Some by simp
    next
      assume "m = n"
      then show "\<exists>i < length (x # xs). marked_number_at (drop i (x # xs)) = Some n
        \<and> (\<forall>j < i. marked_number_at (drop j (x # xs)) = None)"
        using Some by (intro exI [of _ 0]) simp
    qed
    then show ?thesis using Some by simp
  qed
qed

lemma re_search_amount_pattern:
  "map_option (\<lambda>g. group_or g 1 2) (re_search amount_pattern s) =
   map_option Some (first_marked_number s)"
proof (induction s)
  case Nil
  show ?case
    using firstm_amount_pattern [of "[]"]
    by (cases "firstm (matches amount_pattern ([], Map.empty))")
       (simp_all add: case_list_firstm marked_number_at_Nil)
next
  case (Cons x xs)
  show ?case
    using firstm_amount_pattern [of "x # xs"] Cons.IH
    by (cases "firstm (matches amount_pattern (x # xs, Map.empty))";
        cases "marked_number_at (x # xs)")
       (simp_all add: case_list_firstm)
qed

lemma number_at_shape:
  assumes "number_at s = Some n"
  shows "\<exists>ds. ds \<noteq> [] \<and> list_all (in_cls Digit) ds \<and>
           (n = ds \<or> (\<exists>a b. in_cls Digit a \<and> in_cls Digit b \<and> n = ds @ [46, a, b]))"
proof -
  define ds where "ds = takeWhile (in_cls Digit) s"
  define r where "r = dropWhile (in_cls Digit) s"
  have ne: "ds \<noteq> []" using assms by (auto simp: number_at_def Let_def ds_def split: if_splits)
  have all: "list_all (in_cls Digit) ds"
    unfolding ds_def list_all_iff by (meson set_takeWhileD)
  show ?thesis
  proof (cases "has_fraction r")
    case True
    then obtain a b t where "r = 46 # a # b # t" "in_cls Digit a" "in_cls Digit b"
      by (auto simp: has_fraction_def split: list.splits)
    moreover have "n = ds @ take 3 r"
      using assms ne True by (auto simp: number_at_def Let_def ds_def r_def split: if_splits)
    ultimately show ?thesis using ne all by auto
  next
    case False
    then have "n = ds"
      using assms ne by (auto simp: number_at_def Let_def ds_def r_def split: if_splits)
    then show ?thesis using ne all by blast
  qed
qed

lemma takeWhile_all: "list_all P ds \<Longrightarrow> takeWhile P (ds @ x # t) = (if P x then ds @ takeWhile P (x # t) else ds)"
  by (induction ds) auto

lemma py_float_number:
  assumes "number_at s = Some n"
  shows "py_float n = Inr (decimal_value n)"
proof -
  obtain ds where ds: "ds \<noteq> []" "list_all (in_cls Digit) ds"
    and n: "n = ds \<or> (\<exists>a b. in_cls Digit a \<and> in_cls Digit b \<and> n = ds @ [46, a, b])"
    using number_at_shape [OF assms] by blast
  have tw: "takeWhile (in_cls Digit) ds = ds" "dropWhile (in_cls Digit) ds = []"
    using ds(2) by (simp_all add: list_all_iff)
  from n show ?thesis
  proof
    assume nd: "n = ds"
    show ?thesis
      unfolding py_float_def decimal_value_def Let_def nd tw
      using ds(1) by (simp add: digits_value_def)
  next
    assume "\<exists>a b. in_cls Digit a \<and> in_cls Digit b \<and> n = ds @ [46, a, b]"
    then obtain a b where ab: "in_cls Digit a" "in_cls Digit b" "n = ds @ [46, a, b]" by blast
    have t: "takeWhile (in_cls Digit) n = ds"
      unfolding ab(3) using ds(2) by (simp add: takeWhile_all)
    have "ds @ dropWhile (in_cls Digit) n = n"
      using takeWhile_dropWhile_id [of "in_cls Digit" n] unfolding t .
    then have d: "dropWhile (in_cls Digit) n = [46, a, b]"
      using ab(3) by simp
    show ?thesis
      unfolding py_float_def decimal_value_def Let_def t d
      using ds(1) ab by (simp add: ab(3))
  qed
qed

lemma first_some_Some: "first_some f xs = Some y \<Longrightarrow> \<exists>x. f x = Some y"
  by (induction xs) (auto split: option.splits)

lemma first_marked_number_is_number:
  "first_marked_number s = Some n \<Longrightarrow> \<exists>t. number_at t = Some n"
proof (induction s)
  case Nil
  then show ?case by simp
next
  case (Cons x xs)
  show ?case
  proof (cases "marked_number_at (x # xs)")
    case None
    then show ?thesis using Cons by simp
  next
    case (Some m)
    then have "m = n" using Cons.prems by simp
    then have "number_after_token (x # xs) = Some n \<or> number_before_token (x # xs) = Some n"
      using Some by (auto simp: marked_number_at_def split: option.splits)
    then show ?thesis
    proof
      assume "number_after_token (x # xs) = Some n"
      then have "\<exists>tok. (if startswith (x # xs) tok
                   then number_at (dropWhile (in_cls Space) (drop (length tok) (x # xs)))
                   else None) = Some n"
        unfolding number_after_token_def by (rule first_some_Some)
      then obtain tok where tok: "(if startswith (x # xs) tok
                   then number_at (dropWhile (in_cls Space) (drop (length tok) (x # xs)))
                   else None) = Some n" by blast
      have "number_at (dropWhile (in_cls Space) (drop (length tok) (x # xs))) = Some n"
        using tok by (cases "startswith (x # xs) tok")
          (simp_all only: if_True if_False option.distinct)
      then show ?thesis by blast
    next
      assume "number_before_token (x # xs) = Some n"
      then have "number_at (x # xs) = Some n"
        by (auto simp: number_before_token_def split: option.splits if_splits)
      then show ?thesis by blast
    qed
  qed
qed

lemma extract_amount_eq:
  "extract_amount s =
     Inr (case first_marked_number s of None \<Rightarrow> 0 | Some n \<Rightarrow> decimal_value n)"
proof (cases "first_marked_number s")
  case None
  then have "re_search amount_pattern s = None"
    using re_search_amount_pattern [of s] by simp
  then show ?thesis using None by (simp add: extract_amount_def)
next
  case (Some n)
  then obtain g where g: "re_search amount_pattern s = Some g" "group_or g 1 2 = Some n"
    using re_search_amount_pattern [of s] by auto
  obtain t where "number_at t = Some n"
    using first_marked_number_is_number [OF Some] by blast
  then have "py_float n = Inr (decimal_value n)" by (rule py_float_number)
  then show ?thesis using g Some by (simp add: extract_amount_def)
qed


lemma star_cls_suffix:
  "r \<in> set (star_cls c xs) \<Longrightarrow> \<exists>p. xs = p @ r \<and> list_all c' p" if "c' = in_cls c"
  using that
proof (induction xs)
  case Nil
  then show ?case by simp
next
  case (Cons x xs)
  show ?case
  proof (cases "r = x # xs")
    case True
    then show ?thesis by simp
  next
    case False
    then have "in_cls c x" "r \<in> set (star_cls c xs)"
      using Cons.prems by (auto split: if_splits)
    then obtain p where "xs = p @ r" "list_all c' p" using Cons by blast
    then have "x # xs = (x # p) @ r \<and> list_all c' (x # p)"
      using \<open>in_cls c x\<close> Cons.prems(2) by simp
    then show ?thesis by blast
  qed
qed

lemma matches_unit_word_groups: "m \<in> set (matches unit_word (r, g)) \<Longrightarrow> snd m = g"
  by (auto simp: unit_word_def split: if_splits)

lemma matches_quantity_group:
  assumes "m \<in> set (matches quantity_pattern (t, g))"
  shows "\<exists>v. snd m 1 = Some v \<and> v \<noteq> [] \<and> list_all (in_cls Digit) v \<and> length v \<le> length t"
proof -
  from assms obtain st where st: "st \<in> set (matches (Grp 1 (Plus Digit)) (t, g))"
    and m: "m \<in> set (matches (Seq (Star Space) unit_word) st)"
    unfolding quantity_pattern_def by (auto simp del: matches.simps(3, 4, 8))
  obtain r g' where st_eq: "st = (r, g')" by (cases st)
  have "snd m = g'"
    using m unfolding st_eq by (auto simp del: in_cls.simps dest: matches_unit_word_groups)
  moreover obtain x xs where t: "t = x # xs" "in_cls Digit x" "r \<in> set (star_cls Digit xs)"
    "g' = g(1 \<mapsto> take (length t - length r) t)"
    using st unfolding st_eq by (cases t) (auto simp del: in_cls.simps split: if_splits)
  moreover obtain p where p: "xs = p @ r" "list_all (in_cls Digit) p"
    using star_cls_suffix [OF refl t(3)] by blast
  moreover have "take (length t - length r) t = x # p"
    unfolding t(1) p(1) by simp
  ultimately show ?thesis by (simp del: in_cls.simps)
qed

lemma re_search_SomeD:
  "re_search r s = Some g \<Longrightarrow>
   \<exists>t m. m \<in> set (matches r (t, Map.empty)) \<and> g = snd m \<and> length t \<le> length s"
proof (induction s)
  case Nil
  then obtain m ms where ms: "matches r ([], Map.empty) = m # ms" "g = snd m"
    by (cases "matches r ([], Map.empty)") auto
  then have "m \<in> set (matches r ([], Map.empty))" by simp
  then show ?case using ms(2) by blast
next
  case (Cons x xs)
  show ?case
  proof (cases "matches r (x # xs, Map.empty)")
    case Nil
    then have "re_search r xs = Some g" using Cons.prems by simp
    then obtain t m where "m \<in> set (matches r (t, Map.empty))" "g = snd m"
      "length t \<le> length xs" using Cons.IH by blast
    then have "m \<in> set (matches r (t, Map.empty)) \<and> g = snd m \<and> length t \<le> length (x # xs)"
      by simp
    then show ?thesis by blast
  next
    case (Cons m ms)
    then have "g = snd m" using Cons.prems by simp
    moreover have "m \<in> set (matches r (x # xs, Map.empty))" using Cons by simp
    ultimately show ?thesis by blast
  qed
qed

lemma extract_quantity_total:
  assumes "length s \<le> 4300"
  shows "\<exists>q. extract_quantity s = Inr q"
proof (cases "re_search quantity_pattern s")
  case None
  then show ?thesis by (simp add: extract_quantity_def)
next
  case (Some g)
  then obtain t m where tm: "m \<in> set (matches quantity_pattern (t, Map.empty))" "g = snd m"
    "length t \<le> length s"
    using re_search_SomeD by blast
  then obtain v where v: "g 1 = Some v" "v \<noteq> []" "list_all (in_cls Digit) v"
    "length v \<le> length t"
    using matches_quantity_group by blast
  then have "length v \<le> 4300" using tm(3) assms by simp
  then show ?thesis
    using Some v by (simp add: extract_quantity_def py_int_def del: in_cls.simps)
qed

text \<open>
  C2 (as the code has it). For every plain input text (ASCII characters and rupee signs,
  at most 300 of them) the extractor succeeds, and its amount is the value of the
  currency-marked number that starts at the leftmost position of the lower-cased text:
  a currency token (rs, rs., rupee, rupees or the rupee sign), optional whitespace and a
  number, or a number, optional whitespace and a currency token, where a number is all
  the digits at that place, optionally followed by a period and two digits. The amount
  is 0 when the text has no currency-marked number.
\<close>

theorem parse_amount:
  "plain_text t \<Longrightarrow>
   \<exists>p. parse_transaction_text t = Inr p \<and>
        amount p = (case first_marked_number (lower t) of
                      None \<Rightarrow> 0 | Some n \<Rightarrow> decimal_value n)"
proof -
  assume "plain_text t"
  then have "length (lower t) \<le> 4300"
    by (simp add: plain_text_def lower_def)
  then obtain q where "extract_quantity (lower t) = Inr q"
    using extract_quantity_total by blast
  then show ?thesis
    by (simp add: parse_transaction_text_def Let_def extract_amount_eq)
qed

lemmas marked_defs =
  lower_def lower_char_def str_def marked_number_at_def number_after_token_def
  number_before_token_def number_at_def has_fraction_def currency_tokens_def
  startswith_def rupee_sign_def decimal_value_def digits_value_def

text \<open>The specification's three phrasings, a number with two decimals, and a text
  without a currency marker.\<close>

theorem parse_amount_witness:
  "plain_text (str ''Sold rice for Rs 250'')
   \<and> (\<exists>p. parse_transaction_text (str ''Sold rice for Rs 250'') = Inr p \<and> amount p = 250)
   \<and> plain_text (str ''250 rs'')
   \<and> (\<exists>p. parse_transaction_text (str ''250 rs'') = Inr p \<and> amount p = 250)
   \<and> plain_text (rupee_sign # str ''250'')
   \<and> (\<exists>p. parse_transaction_text (rupee_sign # str ''250'') = Inr p \<and> amount p = 250)
   \<and> plain_text (str ''Paid 12.50 Rupees for milk, then rs 40'')
   \<and> (\<exists>p. parse_transaction_text (str ''Paid 12.50 Rupees for milk, then rs 40'') = Inr p
           \<and> amount p = 25 / 2)
   \<and> plain_text (str ''sold 5 kg rice'')
   \<and> (\<exists>p. parse_transaction_text (str ''sold 5 kg rice'') = Inr p \<and> amount p = 0)"
proof -
  have p1: "plain_text (str ''Sold rice for Rs 250'')"
    by (simp add: plain_text_def plain_char_def str_def)
  have p2: "plain_text (str ''250 rs'')"
    by (simp add: plain_text_def plain_char_def str_def)
  have p3: "plain_text (rupee_sign # str ''250'')"
    by (simp add: plain_text_def plain_char_def str_def)
  have p4: "plain_text (str ''Paid 12.50 Rupees for milk, then rs 40'')"
    by (simp add: plain_text_def plain_char_def str_def)
  have p5: "plain_text (str ''sold 5 kg rice'')"
    by (simp add: plain_text_def plain_char_def str_def)
  have 1: "first_marked_number (lower (str ''Sold rice for Rs 250'')) = Some (str ''250'')"
    by (simp add: marked_defs)
  have 2: "first_marked_number (lower (str ''250 rs'')) = Some (str ''250'')"
    by (simp add: marked_defs)
  have 3: "first_marked_number (lower (rupee_sign # str ''250'')) = Some (str ''250'')"
    by (simp add: marked_defs)
  have 4: "first_marked_number (lower (str ''Paid 12.50 Rupees for milk, then rs 40''))
             = Some (str ''12.50'')"
    by (simp add: marked_defs)
  have 5: "first_marked_number (lower (str ''sold 5 kg rice'')) = None"
    by (simp add: marked_defs)
  have v: "decimal_value (str ''250'') = 250" "decimal_value (str ''12.50'') = 25 / 2"
    by (simp_all add: marked_defs)
  show ?thesis
    using p1 p2 p3 p4 p5
      parse_amount [OF p1] parse_amount [OF p2] parse_amount [OF p3]
      parse_amount [OF p4] parse_amount [OF p5]
    unfolding 1 2 3 4 5 by (simp add: v)
qed

text \<open>
  C2 as stated fails: in "rs 2.5" the currency marker stands immediately before the
  decimal number 2.5, which Python's float reads as 2.5, and the extractor returns 2.
\<close>

theorem parse_amount_one_decimal_counterexample:
  "parse_transaction_text (str ''rs 2.5'') =
     Inr \<lparr>p_item = str ''general'', amount = 2, p_type = str ''sale'', p_quantity = 1,
          payment_method = str ''cash''\<rparr>
   \<and> py_float (str ''2.5'') = Inr (5 / 2)
   \<and> (2 :: real) \<noteq> 5 / 2"
  by (simp add: parse_defs pattern_defs)

section \<open>Properties of the request handler\<close>

text \<open>
  C9. A request whose text is missing or empty is answered with the client error
  "No input provided", and the store is left as it was.
\<close>

theorem process_input_no_text:
  "request_text = None \<or> request_text = Some [] \<Longrightarrow>
   process_input e d request_text = (Bad_request (str ''No input provided''), d)"
  by (auto simp: process_input_def)

theorem process_input_no_text_witness:
  "process_input example_env (ledger ten_sales [stock_row 1 ''rice'' 5 10]) None
     = (Bad_request (str ''No input provided''), ledger ten_sales [stock_row 1 ''rice'' 5 10])
   \<and> process_input example_env (ledger ten_sales [stock_row 1 ''rice'' 5 10]) (Some [])
     = (Bad_request (str ''No input provided''), ledger ten_sales [stock_row 1 ''rice'' 5 10])"
  using process_input_no_text [of None example_env "ledger ten_sales [stock_row 1 ''rice'' 5 10]"]
    process_input_no_text [of "Some []" example_env "ledger ten_sales [stock_row 1 ''rice'' 5 10]"]
  by simp

text \<open>
  C10. On "bought 0 kg rice rs 100" the extractor returns a purchase of quantity 0;
  the purchase path then divides the amount by that quantity, the division raises
  ZeroDivisionError, and the request ends in the handler's error branch, for every
  clock and every store.
\<close>

theorem process_input_zero_quantity_purchase:
  "parse_transaction_text (str ''bought 0 kg rice rs 100'') =
     Inr \<lparr>p_item = str ''rice'', amount = 100, p_type = str ''purchase'', p_quantity = 0,
          payment_method = str ''cash''\<rparr>
   \<and> fst (process_input e d (Some (str ''bought 0 kg rice rs 100''))) =
       Server_error ZeroDivisionError"
proof -
  have ne: "str ''bought 0 kg rice rs 100'' \<noteq> []"
    by (simp add: str_def)
  have "fst (process_input e d (Some (str ''bought 0 kg rice rs 100''))) =
       Server_error ZeroDivisionError"
    unfolding process_input_def
    by (simp add: ne parse_bought_zero store_in_database_def Let_def) (simp add: str_def)
  then show ?thesis
    by (simp add: parse_bought_zero)
qed

theorem process_input_zero_quantity_purchase_witness:
  "fst (process_input example_env (ledger ten_sales [stock_row 1 ''rice'' 5 10])
          (Some (str ''bought 0 kg rice rs 100''))) =
       Server_error ZeroDivisionError"
  using process_input_zero_quantity_purchase
    [of example_env "ledger ten_sales [stock_row 1 ''rice'' 5 10]"]
  by simp

text \<open>
  C3. The claim is that a purchase of an item that has an inventory row leaves the row's
  reorder\_level as it was. The store holds rice with quantity 5 and reorder level 20;
  after "bought 3 kg rice rs 90" the row has quantity 8, unit price 30, the new
  timestamp, and reorder level 10 (and a new rowid).
\<close>

theorem process_input_purchase_resets_reorder_level:
  "inventory (ledger [] [stock_row 1 ''rice'' 5 20]) =
     [\<lparr>i_id = 1, item_name = str ''rice'', quantity = 5, reorder_level = 20,
       unit_price = 25, last_updated = str ''2026-01-10T08:00:00''\<rparr>]
   \<and> inventory (snd (process_input example_env (ledger [] [stock_row 1 ''rice'' 5 20])
                     (Some (str ''bought 3 kg rice rs 90'')))) =
     [\<lparr>i_id = 2, item_name = str ''rice'', quantity = 8, reorder_level = 10,
       unit_price = 30, last_updated = str ''2026-02-01T09:30:00''\<rparr>]"
proof -
  have before: "inventory (ledger [] [stock_row 1 ''rice'' 5 20]) =
     [\<lparr>i_id = 1, item_name = str ''rice'', quantity = 5, reorder_level = 20,
       unit_price = 25, last_updated = str ''2026-01-10T08:00:00''\<rparr>]"
    by (simp add: ledger_def stock_row_def)
  have ne: "str ''bought 3 kg rice rs 90'' \<noteq> []"
    by (simp add: str_def)
  have st: "store_in_database example_env
              \<lparr>p_item = str ''rice'', amount = 90, p_type = str ''purchase'', p_quantity = 3,
               payment_method = str ''cash''\<rparr> (ledger [] [stock_row 1 ''rice'' 5 20]) =
            Inr \<lparr>transactions =
                   [\<lparr>t_id = 1, timestamp = str ''2026-02-01T09:30:00'', t_item = str ''rice'',
                     t_amount = 90, t_type = str ''purchase'', t_payment_method = str ''cash'',
                     customer_name = str ''Customer''\<rparr>],
                 transactions_seq = 1,
                 inventory =
                   [\<lparr>i_id = 2, item_name = str ''rice'', quantity = 8, reorder_level = 10,
                     unit_price = 30, last_updated = str ''2026-02-01T09:30:00''\<rparr>],
                 inventory_seq = 2\<rparr>"
    by (simp add: store_in_database_def insert_transaction_def insert_or_replace_inventory_def
        next_rowid_def ledger_def stock_row_def example_env_def Let_def str_def)
  have "inventory (snd (process_input example_env (ledger [] [stock_row 1 ''rice'' 5 20])
                     (Some (str ''bought 3 kg rice rs 90'')))) =
     [\<lparr>i_id = 2, item_name = str ''rice'', quantity = 8, reorder_level = 10,
       unit_price = 30, last_updated = str ''2026-02-01T09:30:00''\<rparr>]"
    unfolding process_input_def
    by (simp add: ne parse_bought_rice st Let_def del: One_nat_def)
  with before show ?thesis by (rule conjI)
qed

end
